theory Spec2Isabelle
  imports Main
begin

section \<open>The host: Node's path and fs modules\<close>

text \<open>
  \<^verbatim>\<open>scripts/bundle.js\<close> calls Node's \<^verbatim>\<open>path\<close> and \<^verbatim>\<open>fs\<close> modules. They are not
  code of the repository, so they are parameters of the model: a record holds the five
  \<^verbatim>\<open>path\<close> functions the script calls and the file system. The file system is the
  finite list \<open>files\<close> of the paths
  that \<^verbatim>\<open>fs.readFileSync\<close> can read, with their text, and the list \<open>others\<close> of the
  paths that exist but cannot be read as a file (directories, files without read
  permission). \<open>read_error p\<close> is the \<^verbatim>\<open>err.message\<close> of the failed read of \<open>p\<close>.

  A JavaScript string is modelled as a \<^typ>\<open>string\<close>: the model covers texts whose
  code units are below 256.
\<close>

record host =
  path_resolve :: "string \<Rightarrow> string \<Rightarrow> string"
  path_join :: "string \<Rightarrow> string \<Rightarrow> string"
  path_dirname :: "string \<Rightarrow> string"
  path_extname :: "string \<Rightarrow> string"
  path_relative :: "string \<Rightarrow> string \<Rightarrow> string"
  files :: "(string \<times> string) list"
  others :: "string list"
  read_error :: "string \<Rightarrow> string"

definition existsSync :: "host \<Rightarrow> string \<Rightarrow> bool" where
  "existsSync H p = (p \<in> fst ` set (files H) \<or> p \<in> set (others H))"

definition readFileSync :: "host \<Rightarrow> string \<Rightarrow> string option" where
  "readFileSync H p = map_of (files H) p"

text \<open>
  Every \<^verbatim>\<open>throw new Error(message)\<close> of the script is a value of \<open>error\<close>; the
  constructor names the throw site (lines 75 and 79, line 128, lines 138 and 159) and
  carries the message.
\<close>

datatype error = ModuleNotFound string | CircularImport string | IoError string


definition esc :: string where
  "esc = [CHR 0x1B]"

definition sq :: string where
  "sq = [CHR 0x27]"

definition dq :: string where
  "dq = [CHR 0x22]"

section \<open>resolveModulePath\<close>

text \<open>
  The script lowers the extension and then only asks whether it is empty; lowering the
  letters A to Z is enough for that.
\<close>

definition toLowerCase :: "string \<Rightarrow> string" where
  "toLowerCase s = map (\<lambda>c. let n = (of_char c :: nat) in
                            if 65 \<le> n \<and> n \<le> 90 then char_of (n + 32) else c) s"

definition backslashes_to_slashes :: "string \<Rightarrow> string" where
  "backslashes_to_slashes s = map (\<lambda>c. if c = CHR 0x5C then CHR ''/'' else c) s"

definition cannot_find :: "host \<Rightarrow> string \<Rightarrow> string \<Rightarrow> string \<Rightarrow> string" where
  "cannot_find H currentDir currentFilePath requiredPath =
     ''Cannot find module '' @ esc @ ''[33m'' @ sq @ requiredPath @ sq @ '' '' @ esc @ ''[0m(at ''
       @ esc @ ''[34m'' @ path_resolve H currentDir currentFilePath @ esc @ ''[0m)''"

definition resolveModulePath :: "host \<Rightarrow> string \<Rightarrow> string \<Rightarrow> string \<Rightarrow> error + string" where
  "resolveModulePath H baseDir currentFilePath requiredPath =
     (let currentDir = path_dirname H currentFilePath;
          absolute = path_resolve H currentDir requiredPath;
          extension = toLowerCase (path_extname H absolute)
      in if extension = [] then
           if existsSync H (absolute @ ''.lua'') then
             Inr (backslashes_to_slashes (path_relative H baseDir (absolute @ ''.lua'')))
           else if existsSync H (absolute @ ''.luau'') then
             Inr (backslashes_to_slashes (path_relative H baseDir (absolute @ ''.luau'')))
           else Inl (ModuleNotFound (cannot_find H currentDir currentFilePath requiredPath))
         else if \<not> existsSync H absolute then
           Inl (ModuleNotFound (cannot_find H currentDir currentFilePath requiredPath))
         else Inr (backslashes_to_slashes (path_relative H baseDir absolute)))"

section \<open>parseAndTransform\<close>

text \<open>
  \<^verbatim>\<open>luaContent.replace(requirePattern, callback)\<close> with the global pattern
  \<^verbatim>\<open>/\brequire\s*\(\s*([^)]*)\)/g\<close> walks the text from left to right. At a position
  the pattern matches when the previous character is not a word character (\<^verbatim>\<open>\b\<close>
  before the word character \<^verbatim>\<open>r\<close>), the text goes on with \<^verbatim>\<open>require\<close>, white space,
  an opening parenthesis and white space, and a closing parenthesis follows somewhere;
  the captured group is the text from the first character that is not white space up to
  the first closing parenthesis. Both \<^verbatim>\<open>\s*\<close> are greedy and what follows each cannot
  start inside the white space it gave back, so backtracking finds no other match.
  After a match the walk goes on behind the closing parenthesis. White space is what
  \<^verbatim>\<open>\s\<close> accepts among the code units below 256, a word character what \<^verbatim>\<open>\w\<close> accepts.
\<close>

definition is_space :: "char \<Rightarrow> bool" where
  "is_space c = (c \<in> {CHR 0x09, CHR 0x0A, CHR 0x0B, CHR 0x0C, CHR 0x0D, CHR '' '', CHR 0xA0})"

definition is_word :: "char \<Rightarrow> bool" where
  "is_word c = (c \<in> set ''abcdefghijklmnopqrstuvwxyzABCDEFGHIJKLMNOPQRSTUVWXYZ0123456789_'')"

definition is_quote :: "char \<Rightarrow> bool" where
  "is_quote c = (c = CHR 0x22 \<or> c = CHR 0x27)"

fun strip_prefix :: "string \<Rightarrow> string \<Rightarrow> string option" where
  "strip_prefix [] s = Some s"
| "strip_prefix (p # ps) [] = None"
| "strip_prefix (p # ps) (c # cs) = (if p = c then strip_prefix ps cs else None)"

definition word_boundary :: "char option \<Rightarrow> bool" where
  "word_boundary prev = (case prev of None \<Rightarrow> True | Some c \<Rightarrow> \<not> is_word c)"

definition match_require :: "string \<Rightarrow> (string \<times> string) option" where
  "match_require s =
     (case strip_prefix ''require'' s of
        None \<Rightarrow> None
      | Some s1 \<Rightarrow>
          (case dropWhile is_space s1 of
             [] \<Rightarrow> None
           | c # s2 \<Rightarrow>
               if c = CHR ''('' then
                 (let s3 = dropWhile is_space s2 in
                  case dropWhile (\<lambda>c. c \<noteq> CHR '')'') s3 of
                    [] \<Rightarrow> None
                  | _ # rest \<Rightarrow> Some (takeWhile (\<lambda>c. c \<noteq> CHR '')'') s3, rest))
               else None))"

datatype piece = Chr char | Call string

lemma strip_prefix_length:
  "strip_prefix p s = Some r \<Longrightarrow> length r + length p = length s"
  by (induction p s rule: strip_prefix.induct) (auto split: if_splits)

lemma match_require_shorter:
  assumes "match_require s = Some (arg, rest)"
  shows "length rest < length s"
proof -
  from assms obtain s1 s2 c d where
    a: "strip_prefix ''require'' s = Some s1" and
    b: "dropWhile is_space s1 = c # s2" and
    e: "dropWhile (\<lambda>c. c \<noteq> CHR '')'') (dropWhile is_space s2) = d # rest"
    by (auto simp: match_require_def Let_def split: option.splits list.splits if_splits)
  have "length rest < length (dropWhile is_space s2)"
    using length_dropWhile_le [of "\<lambda>c. c \<noteq> CHR '')''" "dropWhile is_space s2"] e by simp
  also have "\<dots> \<le> length s2" by (rule length_dropWhile_le)
  also have "\<dots> \<le> length s1"
    using length_dropWhile_le [of is_space s1] b by simp
  also have "\<dots> \<le> length s" using strip_prefix_length [OF a] by simp
  finally show ?thesis .
qed

function scan :: "char option \<Rightarrow> string \<Rightarrow> piece list" where
  "scan prev [] = []"
| "scan prev (c # cs) =
     (case (if word_boundary prev then match_require (c # cs) else None) of
        Some (arg, rest) \<Rightarrow> Call arg # scan (Some (CHR '')'')) rest
      | None \<Rightarrow> Chr c # scan (Some c) cs)"
  by pat_completeness auto
termination
proof (relation "measure (\<lambda>(prev, s). length s)")
  show "wf (measure (\<lambda>(prev, s). length s))" by simp
next
  fix prev :: "char option" and c :: char and cs x2 x y
  assume "(if word_boundary prev then match_require (c # cs) else None) = Some x2"
    and "(x, y) = x2"
  then have "match_require (c # cs) = Some (x, y)" by (auto split: if_splits)
  from match_require_shorter [OF this]
  show "((Some CHR '')'', y), prev, c # cs) \<in> measure (\<lambda>(prev, s). length s)"
    by simp
next
  fix prev :: "char option" and c :: char and cs
  show "((Some c, cs), prev, c # cs) \<in> measure (\<lambda>(prev, s). length s)" by simp
qed

text \<open>
  The callback of the replacement. \<^verbatim>\<open>arg.match(/^["']([^"']+)["']$/)\<close> succeeds when
  the argument is a quote character, one or more characters that are not quote
  characters, and a quote character; the group is what stands between the two.
\<close>

definition quotedMatch :: "string \<Rightarrow> string option" where
  "quotedMatch arg =
     (case arg of
        [] \<Rightarrow> None
      | q # r \<Rightarrow>
          if is_quote q \<and> r \<noteq> [] \<and> is_quote (last r) \<and> butlast r \<noteq> []
             \<and> (\<forall>c \<in> set (butlast r). \<not> is_quote c)
          then Some (butlast r) else None)"

definition replacer :: "host \<Rightarrow> string \<Rightarrow> string \<Rightarrow> string \<Rightarrow> error + (string \<times> string list)" where
  "replacer H baseDir currentFilePath arg =
     (case quotedMatch arg of
        Some requiredPath \<Rightarrow>
          (case resolveModulePath H baseDir currentFilePath requiredPath of
             Inl e \<Rightarrow> Inl e
           | Inr resolvedModule \<Rightarrow>
               Inr (''import('' @ dq @ resolvedModule @ dq @ '')'', [resolvedModule]))
      | None \<Rightarrow> Inr (''import('' @ arg @ '')'', []))"

text \<open>
  The pieces are rewritten from left to right; the first resolution that throws ends
  the replacement. The result is the new text and the list \<^verbatim>\<open>subModules\<close>.
\<close>

fun rewrite :: "host \<Rightarrow> string \<Rightarrow> string \<Rightarrow> piece list \<Rightarrow> error + (string \<times> string list)" where
  "rewrite H baseDir currentFilePath [] = Inr ([], [])"
| "rewrite H baseDir currentFilePath (Chr c # ps) =
     (case rewrite H baseDir currentFilePath ps of
        Inl e \<Rightarrow> Inl e
      | Inr (text, subs) \<Rightarrow> Inr (c # text, subs))"
| "rewrite H baseDir currentFilePath (Call arg # ps) =
     (case replacer H baseDir currentFilePath arg of
        Inl e \<Rightarrow> Inl e
      | Inr (call, found) \<Rightarrow>
          (case rewrite H baseDir currentFilePath ps of
             Inl e \<Rightarrow> Inl e
           | Inr (text, subs) \<Rightarrow> Inr (call @ text, found @ subs)))"

definition parseAndTransform :: "host \<Rightarrow> string \<Rightarrow> string \<Rightarrow> string \<Rightarrow> error + (string \<times> string list)" where
  "parseAndTransform H baseDir luaContent currentFilePath =
     rewrite H baseDir currentFilePath (scan None luaContent)"

section \<open>loadModule\<close>

text \<open>
  \<^verbatim>\<open>bundleLua\<close> owns the set \<^verbatim>\<open>visited\<close> and the object \<^verbatim>\<open>modules\<close>; \<^verbatim>\<open>loadModule\<close>
  changes both, so the model passes them along in a record. The set is kept as the list
  of its members in insertion order, without duplicates. The object is kept as the list
  of its properties in insertion order, the order in which \<^verbatim>\<open>Object.entries\<close> yields
  them: an assignment to a name that is already a property replaces the value in place
  and a new name goes to the end. (\<^verbatim>\<open>Object.entries\<close> would move names that are
  integer indices to the front; the names assigned here are results of
  \<^verbatim>\<open>resolveModulePath\<close>, relative paths of files with an extension.)

  \<^verbatim>\<open>warnOnTypeDefinitions\<close> writes warnings to the console and returns nothing; it has no
  part in the result and is left out.

  \<^verbatim>\<open>stack\<close> is one array that the calls share: each call pushes its path before it
  loads the submodules and pops it when they are done, so a submodule sees the caller's
  stack with the caller's path at the end, and after a call that returns the stack is as
  before. A call that throws ends the build. The model therefore passes the stack down
  as a value.
\<close>

record tstate =
  visited :: "string list"
  modules :: "(string \<times> string) list"

definition visited_add :: "string list \<Rightarrow> string \<Rightarrow> string list" where
  "visited_add vs p = (if p \<in> set vs then vs else vs @ [p])"

fun assign :: "(string \<times> string) list \<Rightarrow> string \<Rightarrow> string \<Rightarrow> (string \<times> string) list" where
  "assign [] k v = [(k, v)]"
| "assign ((k', v') # kvs) k v = (if k' = k then (k, v) # kvs else (k', v') # assign kvs k v)"

definition circular_import :: "string \<Rightarrow> string \<Rightarrow> string" where
  "circular_import moduleName previousPath =
     ''Circular import detected: '' @ esc @ ''[33m'' @ sq @ moduleName @ sq @ '' '' @ esc
       @ ''[0m(at '' @ esc @ ''[34m'' @ previousPath @ esc @ ''[0m)''"

definition could_not_read :: "host \<Rightarrow> string \<Rightarrow> string" where
  "could_not_read H p =
     ''Could not read file at '' @ esc @ ''[34m'' @ p @ '' '' @ esc @ ''[0m'' @ read_error H p"

definition load_rank ::
  "host \<times> string \<times> string \<times> string list \<times> string \<times> tstate
     + host \<times> string \<times> string list \<times> string list \<times> string \<times> tstate \<Rightarrow> nat \<times> nat" where
  "load_rank x =
     (case x of
        Inl (H, baseDir, moduleName, stack, previousPath, st) \<Rightarrow>
          (card (fst ` set (files H) - set stack), 0)
      | Inr (H, baseDir, subModules, stack, previousPath, st) \<Rightarrow>
          (card (fst ` set (files H) - set stack), Suc (length subModules)))"

function loadModule :: "host \<Rightarrow> string \<Rightarrow> string \<Rightarrow> string list \<Rightarrow> string \<Rightarrow> tstate \<Rightarrow> error + tstate"
  and loadModules :: "host \<Rightarrow> string \<Rightarrow> string list \<Rightarrow> string list \<Rightarrow> string \<Rightarrow> tstate \<Rightarrow> error + tstate"
where
  "loadModule H baseDir moduleName stack previousPath st =
     (let modulePath = path_resolve H baseDir moduleName in
      if modulePath \<in> set stack then
        Inl (CircularImport (circular_import moduleName previousPath))
      else if modulePath \<in> set (visited st) then Inr st
      else
        (case readFileSync H modulePath of
           None \<Rightarrow> Inl (IoError (could_not_read H modulePath))
         | Some luaContent \<Rightarrow>
             (case parseAndTransform H baseDir luaContent modulePath of
                Inl e \<Rightarrow> Inl e
              | Inr (newContent, subModules) \<Rightarrow>
                  (case loadModules H baseDir subModules (stack @ [modulePath]) modulePath
                          (st\<lparr>modules := assign (modules st) moduleName newContent\<rparr>) of
                     Inl e \<Rightarrow> Inl e
                   | Inr st' \<Rightarrow> Inr (st'\<lparr>visited := visited_add (visited st') modulePath\<rparr>)))))"
| "loadModules H baseDir [] stack previousPath st = Inr st"
| "loadModules H baseDir (subModule # rest) stack previousPath st =
     (case loadModule H baseDir subModule stack previousPath st of
        Inl e \<Rightarrow> Inl e
      | Inr st' \<Rightarrow> loadModules H baseDir rest stack previousPath st')"
  by pat_completeness auto
termination
proof (relation "inv_image (less_than <*lex*> less_than) load_rank")
  show "wf (inv_image (less_than <*lex*> less_than) load_rank)"
    by (intro wf_inv_image wf_lex_prod wf_less_than)
next
  fix H :: host and baseDir moduleName :: string and stack :: "string list"
    and modulePath luaContent previousPath newContent :: string and st :: tstate
    and subModules :: "string list"
  assume fresh: "modulePath \<notin> set stack"
    and read: "readFileSync H modulePath = Some luaContent"
  from read have "modulePath \<in> fst ` set (files H)"
    by (auto simp: readFileSync_def dest: map_of_SomeD intro: rev_image_eqI)
  with fresh have "fst ` set (files H) - set (stack @ [modulePath])
      \<subset> fst ` set (files H) - set stack"
    by auto
  then have "card (fst ` set (files H) - set (stack @ [modulePath]))
      < card (fst ` set (files H) - set stack)"
    by (intro psubset_card_mono) auto
  then show "(Inr (H, baseDir, subModules, stack @ [modulePath], modulePath,
          st\<lparr>modules := assign (modules st) moduleName newContent\<rparr>),
        Inl (H, baseDir, moduleName, stack, previousPath, st))
      \<in> inv_image (less_than <*lex*> less_than) load_rank"
    by (simp add: load_rank_def)
qed (simp_all add: load_rank_def)

section \<open>bundleLua and the command line\<close>

text \<open>
  Lines 154 to 169: the entry file is read and transformed, and its submodules are
  loaded, each with an empty stack, into a table that starts empty. The entry is never
  the argument of \<^verbatim>\<open>modules[moduleName] = newContent\<close> here.
\<close>

definition collect :: "host \<Rightarrow> string \<Rightarrow> string \<Rightarrow> error + (string \<times> tstate)" where
  "collect H baseDir entryFile =
     (let entryPath = path_join H baseDir entryFile in
      case readFileSync H entryPath of
        None \<Rightarrow> Inl (IoError (could_not_read H entryPath))
      | Some entryContent \<Rightarrow>
          (case parseAndTransform H baseDir entryContent entryPath of
             Inl e \<Rightarrow> Inl e
           | Inr (transformedEntry, entryImports) \<Rightarrow>
               (case loadModules H baseDir entryImports [] entryPath
                       \<lparr>visited = [], modules = []\<rparr> of
                  Inl e \<Rightarrow> Inl e
                | Inr st \<Rightarrow> Inr (transformedEntry, st))))"

definition version :: string where
  "version = ''1.0.0''"

text \<open>The clock is read once; its two strings are the parameter \<open>now\<close>.\<close>

definition header_lines :: "string \<times> string \<Rightarrow> string list" where
  "header_lines now =
     [''--'',
      ''-- LuaBundler v'' @ version,
      ''-- Bundled on '' @ fst now @ '' at '' @ snd now,
      ''-- @author discordrpc'',
      ''--'',
      ''--!nolint'',
      ''local __BUNDLE = {}'',
      []]"

fun module_lines :: "(string \<times> string) list \<Rightarrow> string list" where
  "module_lines [] = []"
| "module_lines ((name, luaSource) # rest) =
     [''__BUNDLE['' @ sq @ name @ sq @ ''] = function()'', luaSource, ''end'', []]
       @ module_lines rest"

definition import_lines :: "string list" where
  \<open>import_lines =
     [''function import(name)'',
      ''  if __BUNDLE[name] then'',
      ''    if type(__BUNDLE[name]) == 'function' then'',
      ''      local result = __BUNDLE[name]()'',
      ''      __BUNDLE[name] = result'',
      ''      return result'',
      ''    else'',
      ''      return __BUNDLE[name]'',
      ''    end'',
      ''  else'',
      ''    error('Module "' .. name .. '" not found in bundle')'',
      ''  end'',
      ''end'',
      []]\<close>

definition game_require_lines :: "string list" where
  \<open>game_require_lines =
     [''function game_require(module, callback)'',
      ''  setthreadidentity(2)'',
      ''  local imported = require(module)'',
      ''  if typeof(callback) == 'function' and imported ~= nil then'',
      ''    callback(imported)'',
      ''  end'',
      ''  setthreadidentity(7)'',
      ''  if imported == nil then'',
      ''    error('Failed to require game module "' .. module .. '"')'',
      ''  else'',
      ''    return imported'',
      ''  end'',
      ''end'',
      []]\<close>

fun join_lines :: "string list \<Rightarrow> string" where
  "join_lines [] = []"
| "join_lines [l] = l"
| "join_lines (l # ls) = l @ [CHR 0x0A] @ join_lines ls"

definition output_lines :: "string \<times> string \<Rightarrow> (string \<times> string) list \<Rightarrow> string \<Rightarrow> string list" where
  "output_lines now table transformedEntry =
     header_lines now @ module_lines table @ import_lines @ game_require_lines
       @ [''-- Entry point'', transformedEntry]"

definition bundleLua :: "host \<Rightarrow> string \<times> string \<Rightarrow> string \<Rightarrow> string \<Rightarrow> error + string" where
  "bundleLua H now baseDir entryFile =
     (case collect H baseDir entryFile of
        Inl e \<Rightarrow> Inl e
      | Inr (transformedEntry, st) \<Rightarrow>
          Inr (join_lines (output_lines now (modules st) transformedEntry)))"

text \<open>
  Lines 244 to 266. \<open>Usage\<close> is the exit with the usage message, \<open>Written f t\<close> the
  call \<^verbatim>\<open>fs.writeFileSync(f, t, 'utf8')\<close>, the only place where the script writes a
  file, and \<open>Failed m\<close> the exit of the \<^verbatim>\<open>catch\<close> block with the message on the console.
\<close>

datatype outcome = Usage | Written string string | Failed string


section \<open>The module graph\<close>

text \<open>
  The submodules of the file at an absolute path are the names to which the literal
  imports of its text resolve, in textual order; an import that does not resolve adds
  none, and a file that cannot be read has none. For a file whose imports all resolve
  this is the list that \<^verbatim>\<open>parseAndTransform\<close> returns. One file imports another when the
  other's absolute path is \<^verbatim>\<open>path.resolve(baseDir, name)\<close> for one of these names. The
  roots of a build are the absolute paths of the entry file's submodules.
\<close>

fun requires_of :: "host \<Rightarrow> string \<Rightarrow> string \<Rightarrow> piece list \<Rightarrow> string list" where
  "requires_of H baseDir currentFilePath [] = []"
| "requires_of H baseDir currentFilePath (Chr c # ps) = requires_of H baseDir currentFilePath ps"
| "requires_of H baseDir currentFilePath (Call arg # ps) =
     (case quotedMatch arg of
        None \<Rightarrow> []
      | Some requiredPath \<Rightarrow>
          (case resolveModulePath H baseDir currentFilePath requiredPath of
             Inl e \<Rightarrow> []
           | Inr resolvedModule \<Rightarrow> [resolvedModule]))
       @ requires_of H baseDir currentFilePath ps"

definition submodules :: "host \<Rightarrow> string \<Rightarrow> string \<Rightarrow> string list" where
  "submodules H baseDir p =
     (case readFileSync H p of
        None \<Rightarrow> []
      | Some luaContent \<Rightarrow> requires_of H baseDir p (scan None luaContent))"


definition entry_submodules :: "host \<Rightarrow> string \<Rightarrow> string \<Rightarrow> string list" where
  "entry_submodules H baseDir entryFile = submodules H baseDir (path_join H baseDir entryFile)"


text \<open>
  Depth-first discovery order, as the specification words it: the pending names are
  taken from the front; a name whose absolute path has been discovered is dropped, any
  other name is appended to the discovered names and its submodules, in textual order,
  are put in front of the pending ones.
\<close>

inductive discover :: "host \<Rightarrow> string \<Rightarrow> string list \<Rightarrow> string list \<Rightarrow> string list \<Rightarrow> bool"
  for H :: host and baseDir :: string
where
  finished: "discover H baseDir [] seen seen"
| known: "path_resolve H baseDir n \<in> path_resolve H baseDir ` set seen \<Longrightarrow>
     discover H baseDir ns seen r \<Longrightarrow> discover H baseDir (n # ns) seen r"
| fresh: "path_resolve H baseDir n \<notin> path_resolve H baseDir ` set seen \<Longrightarrow>
     discover H baseDir (submodules H baseDir (path_resolve H baseDir n) @ ns) (seen @ [n]) r \<Longrightarrow>
     discover H baseDir (n # ns) seen r"

code_pred discover .

section \<open>The functions of the artifact\<close>

text \<open>
  Lines 196 to 228 emit two Lua functions as fixed text. They are modelled as functions
  on the state of the Lua program that runs the artifact: the table \<^verbatim>\<open>__BUNDLE\<close>, which
  maps a name to a value (\<open>LNil\<close> for a name that is not a key), and the thread identity
  that \<^verbatim>\<open>setthreadidentity\<close> sets. A function value is the number of a closure; what a
  closure does when it is called is a parameter, a function from the state to the
  outcome of the call: the first value it returns, \<open>LNil\<close> if it returns none, and
  the new state, or the error it raises and the state at that moment.
\<close>

datatype lua_value = LNil | LBool bool | LNum int | LStr string | LTable nat | LFun nat

record lua_state =
  bundle_table :: "string \<Rightarrow> lua_value"
  identity :: nat

datatype lua_outcome = Returned lua_value lua_state | Raised string lua_state

definition truthy :: "lua_value \<Rightarrow> bool" where
  "truthy v = (v \<noteq> LNil \<and> v \<noteq> LBool False)"

definition lua_import :: "(nat \<Rightarrow> lua_state \<Rightarrow> lua_outcome) \<Rightarrow> string \<Rightarrow> lua_state \<Rightarrow> lua_outcome" where
  "lua_import call name s =
     (if truthy (bundle_table s name) then
        (case bundle_table s name of
           LFun f \<Rightarrow>
             (case call f s of
                Raised m s' \<Rightarrow> Raised m s'
              | Returned result s' \<Rightarrow>
                  Returned result (s'\<lparr>bundle_table := (bundle_table s')(name := result)\<rparr>))
         | v \<Rightarrow> Returned v s)
      else Raised (''Module '' @ dq @ name @ dq @ '' not found in bundle'') s)"

text \<open>
  \<^verbatim>\<open>game_require\<close>: \<open>require\<close> is the loader of the environment, and \<open>callback\<close> is
  \<open>Some\<close> of what the second argument does when it is a function, \<open>None\<close> when
  \<^verbatim>\<open>typeof(callback)\<close> is not \<^verbatim>\<open>'function'\<close>.
\<close>

definition game_require ::
  "(string \<Rightarrow> lua_state \<Rightarrow> lua_outcome) \<Rightarrow> (lua_value \<Rightarrow> lua_state \<Rightarrow> lua_outcome) option
     \<Rightarrow> string \<Rightarrow> lua_state \<Rightarrow> lua_outcome" where
  "game_require require callback module s =
     (case require module (s\<lparr>identity := 2\<rparr>) of
        Raised m s1 \<Rightarrow> Raised m s1
      | Returned imported s1 \<Rightarrow>
          (case (case callback of
                   Some cb \<Rightarrow> if imported \<noteq> LNil then cb imported s1 else Returned LNil s1
                 | None \<Rightarrow> Returned LNil s1) of
             Raised m s2 \<Rightarrow> Raised m s2
           | Returned ignored s2 \<Rightarrow>
               (let s3 = s2\<lparr>identity := 7\<rparr> in
                if imported = LNil then
                  Raised (''Failed to require game module '' @ dq @ module @ dq) s3
                else Returned imported s3)))"

section \<open>A POSIX host for the examples\<close>

text \<open>
  The examples run on a host whose \<^verbatim>\<open>path\<close> functions work on POSIX paths, with the
  root as the working directory: a path is split at the slashes, empty and \<^verbatim>\<open>.\<close>
  segments are dropped and a \<^verbatim>\<open>..\<close> segment removes the one before it.
\<close>

fun split_slash :: "string \<Rightarrow> string list" where
  "split_slash [] = [[]]"
| "split_slash (c # cs) =
     (if c = CHR ''/'' then [] # split_slash cs
      else (case split_slash cs of [] \<Rightarrow> [[c]] | s # ss \<Rightarrow> (c # s) # ss))"

fun normal_segments :: "string list \<Rightarrow> string list \<Rightarrow> string list" where
  "normal_segments acc [] = rev acc"
| "normal_segments acc (s # ss) =
     (if s = [] \<or> s = ''.'' then normal_segments acc ss
      else if s = ''..'' then normal_segments (tl acc) ss
      else normal_segments (s # acc) ss)"

fun join_slash :: "string list \<Rightarrow> string" where
  "join_slash [] = []"
| "join_slash [s] = s"
| "join_slash (s # ss) = s @ ''/'' @ join_slash ss"

definition is_absolute :: "string \<Rightarrow> bool" where
  "is_absolute p = (case p of [] \<Rightarrow> False | c # cs \<Rightarrow> c = CHR ''/'')"

definition posix_resolve :: "string \<Rightarrow> string \<Rightarrow> string" where
  "posix_resolve from to =
     (if is_absolute to then ''/'' @ join_slash (normal_segments [] (split_slash to))
      else ''/'' @ join_slash (normal_segments [] (split_slash from @ split_slash to)))"

definition posix_join :: "string \<Rightarrow> string \<Rightarrow> string" where
  "posix_join a b =
     (if is_absolute a then ''/'' else []) @ join_slash (normal_segments [] (split_slash a @ split_slash b))"

definition posix_dirname :: "string \<Rightarrow> string" where
  "posix_dirname p =
     (let d = (if is_absolute p then ''/'' else [])
                @ join_slash (butlast (normal_segments [] (split_slash p)))
      in if d = [] then ''.'' else d)"

definition posix_extname :: "string \<Rightarrow> string" where
  "posix_extname p =
     (case rev (normal_segments [] (split_slash p)) of
        [] \<Rightarrow> []
      | base # dirs \<Rightarrow>
          (case dropWhile (\<lambda>c. c \<noteq> CHR ''.'') (rev base) of
             [] \<Rightarrow> []
           | dot # front \<Rightarrow>
               if front = [] then []
               else ''.'' @ rev (takeWhile (\<lambda>c. c \<noteq> CHR ''.'') (rev base))))"

fun drop_common :: "string list \<Rightarrow> string list \<Rightarrow> string list \<times> string list" where
  "drop_common (x # xs) (y # ys) = (if x = y then drop_common xs ys else (x # xs, y # ys))"
| "drop_common xs ys = (xs, ys)"

definition posix_relative :: "string \<Rightarrow> string \<Rightarrow> string" where
  "posix_relative from to =
     (case drop_common (normal_segments [] (split_slash from)) (normal_segments [] (split_slash to)) of
        (up, down) \<Rightarrow> join_slash (map (\<lambda>s. ''..'') up @ down))"

definition posix_host :: "(string \<times> string) list \<Rightarrow> host" where
  "posix_host fs =
     \<lparr>path_resolve = posix_resolve, path_join = posix_join, path_dirname = posix_dirname,
      path_extname = posix_extname, path_relative = posix_relative,
      files = fs, others = [],
      read_error = (\<lambda>p. ''ENOENT: no such file or directory, open '' @ sq @ p @ sq)\<rparr>"

section \<open>Properties of a traversal\<close>

text \<open>
  The same graph on module names: a name requires the submodules of its file.
\<close>

definition requires :: "host \<Rightarrow> string \<Rightarrow> (string \<times> string) set" where
  "requires H baseDir = {(m, n). n \<in> set (submodules H baseDir (path_resolve H baseDir m))}"

text \<open>
  The keys of the module table in the order of \<^verbatim>\<open>Object.entries\<close>.
\<close>

definition table_keys :: "tstate \<Rightarrow> string list" where
  "table_keys st = map fst (modules st)"

text \<open>
  While a traversal runs, the absolute paths of the table's keys are the paths on the
  stack and the visited paths, and no two keys have the same absolute path.
\<close>

definition discovered :: "host \<Rightarrow> string \<Rightarrow> string list \<Rightarrow> tstate \<Rightarrow> bool" where
  "discovered H baseDir stack st =
     (path_resolve H baseDir ` set (table_keys st) = set stack \<union> set (visited st)
      \<and> distinct (map (path_resolve H baseDir) (table_keys st)))"

text \<open>
  A list of paths, latest first, in which every path is new and all that it imports came
  before it: the order in which \<^verbatim>\<open>visited.add\<close> is reached.
\<close>

fun finished_order :: "host \<Rightarrow> string \<Rightarrow> string list \<Rightarrow> bool" where
  "finished_order H baseDir [] = True"
| "finished_order H baseDir (v # vs) =
     (v \<notin> set vs \<and> path_resolve H baseDir ` set (submodules H baseDir v) \<subseteq> set vs
      \<and> finished_order H baseDir vs)"

text \<open>
  Every entry of a table holds, under a name, the text that \<^verbatim>\<open>parseAndTransform\<close>
  returns for the file of that name.
\<close>

definition rewritten :: "host \<Rightarrow> string \<Rightarrow> (string \<times> string) list \<Rightarrow> bool" where
  "rewritten H baseDir table =
     (\<forall>(name, luaSource) \<in> set table.
        case readFileSync H (path_resolve H baseDir name) of
          None \<Rightarrow> False
        | Some luaContent \<Rightarrow>
            (case parseAndTransform H baseDir luaContent (path_resolve H baseDir name) of
               Inl e \<Rightarrow> False
             | Inr (newContent, subModules) \<Rightarrow> newContent = luaSource))"


text \<open>
  The points that a build passes: \<open>loops H baseDir entryFile ns stack prev st\<close> says that
  one of the two \<^verbatim>\<open>for\<close> loops over submodules stands before the names \<open>ns\<close>, with this
  stack, this referencing path and this state. The loop of the entry starts with all
  its submodules; a loop goes on behind a call of \<^verbatim>\<open>loadModule\<close> that returns; and a
  call that reads and transforms its file starts the loop over the file's submodules.
  The calls of \<^verbatim>\<open>loadModule\<close> in a build are the calls for the first name of such a point.
\<close>

inductive loops :: "host \<Rightarrow> string \<Rightarrow> string \<Rightarrow> string list \<Rightarrow> string list \<Rightarrow> string \<Rightarrow> tstate \<Rightarrow> bool"
  for H :: host and baseDir :: string and entryFile :: string
where
  entry: "readFileSync H (path_join H baseDir entryFile) = Some entryContent \<Longrightarrow>
     parseAndTransform H baseDir entryContent (path_join H baseDir entryFile)
       = Inr (transformedEntry, entryImports) \<Longrightarrow>
     loops H baseDir entryFile entryImports [] (path_join H baseDir entryFile)
       \<lparr>visited = [], modules = []\<rparr>"
| return: "loops H baseDir entryFile (n # ns) stack prev st \<Longrightarrow>
     loadModule H baseDir n stack prev st = Inr st' \<Longrightarrow>
     loops H baseDir entryFile ns stack prev st'"
| enter: "loops H baseDir entryFile (n # ns) stack prev st \<Longrightarrow>
     path_resolve H baseDir n \<notin> set stack \<Longrightarrow>
     path_resolve H baseDir n \<notin> set (visited st) \<Longrightarrow>
     readFileSync H (path_resolve H baseDir n) = Some luaContent \<Longrightarrow>
     parseAndTransform H baseDir luaContent (path_resolve H baseDir n) = Inr (newContent, subModules) \<Longrightarrow>
     loops H baseDir entryFile subModules (stack @ [path_resolve H baseDir n]) (path_resolve H baseDir n)
       (st\<lparr>modules := assign (modules st) n newContent\<rparr>)"


section \<open>Example trees\<close>

definition probe_tree :: "(string \<times> string) list" where
  \<open>probe_tree =
     [(''/p/main.lua'', ''local x = require("./x") local y = require("./y")''),
      (''/p/x.lua'', ''return 1''),
      (''/p/x.luau'', ''return 2''),
      (''/p/y.luau'', ''return 3'')]\<close>




text \<open>
  A file in the directory \<^verbatim>\<open>/p/v1.2/sub\<close> that requires its parent directory.
\<close>

definition dotted_dir_host :: host where
  \<open>dotted_dir_host =
     (posix_host [(''/p/v1.2/sub/main.lua'', ''return require("..")'')])
       \<lparr>others := [''/p'', ''/p/v1.2'', ''/p/v1.2/sub'']\<rparr>\<close>


text \<open>
  A string literal in the words of the specification: single-quoted or double-quoted,
  the same quote character at both ends and not in between.
\<close>

definition simple_string_literal :: "string \<Rightarrow> bool" where
  "simple_string_literal arg =
     (case arg of
        [] \<Rightarrow> False
      | q # r \<Rightarrow> is_quote q \<and> r \<noteq> [] \<and> last r = q \<and> q \<notin> set (butlast r))"

text \<open>
  A Lua program for the examples. Closure 0 is a module body that returns closure 1,
  closure 1 returns a number, closure 2 is a module body that returns nothing. The table
  holds closure 0 under \<^verbatim>\<open>m.lua\<close> and closure 2 under \<^verbatim>\<open>n.lua\<close>.
\<close>

definition example_call :: "nat \<Rightarrow> lua_state \<Rightarrow> lua_outcome" where
  "example_call f s =
     (if f = 0 then Returned (LFun 1) s
      else if f = 1 then Returned (LNum 42) s
      else if f = 2 then Returned LNil s
      else Raised ''attempt to call a nil value'' s)"

definition example_state :: lua_state where
  "example_state =
     \<lparr>bundle_table = (\<lambda>name. if name = ''m.lua'' then LFun 0 else if name = ''n.lua'' then LFun 2 else LNil),
      identity = 7\<rparr>"

definition raising_require :: "string \<Rightarrow> lua_state \<Rightarrow> lua_outcome" where
  "raising_require module s = Raised (''Module not found: '' @ module) s"

definition table_require :: "string \<Rightarrow> lua_state \<Rightarrow> lua_outcome" where
  "table_require module s = (if module = ''Shared'' then Returned (LTable 1) s else Returned LNil s)"

definition recording_callback :: "lua_value \<Rightarrow> lua_state \<Rightarrow> lua_outcome" where
  "recording_callback v s =
     Returned LNil (s\<lparr>bundle_table := (bundle_table s)(''seen'' := LNum (int (identity s)))\<rparr>)"

section \<open>Evaluation on the examples\<close>

lemmas posix_eval = posix_host_def posix_resolve_def posix_join_def posix_dirname_def
  posix_extname_def posix_relative_def is_absolute_def existsSync_def readFileSync_def
  backslashes_to_slashes_def

lemmas scan_eval = parseAndTransform_def word_boundary_def match_require_def is_space_def
  is_word_def replacer_def quotedMatch_def is_quote_def dq_def sq_def esc_def

section \<open>Path resolution\<close>

lemma toLowerCase_empty: "toLowerCase s = [] \<longleftrightarrow> s = []"
  by (simp add: toLowerCase_def)

lemma no_backslash: "CHR 0x5C \<notin> set (backslashes_to_slashes s)"
  by (auto simp: backslashes_to_slashes_def)

text \<open>
  C4, as stated, fails for a literal whose own text has no extension while the path it
  resolves to has one. The literal \<^verbatim>\<open>..\<close> in a file of the directory \<^verbatim>\<open>/p/v1.2/sub\<close>
  resolves to \<^verbatim>\<open>/p/v1.2\<close>, whose extension is \<^verbatim>\<open>.2\<close>: nothing is probed, and although
  neither \<^verbatim>\<open>/p/v1.2.lua\<close> nor \<^verbatim>\<open>/p/v1.2.luau\<close> exists the resolution succeeds, with the
  directory.
\<close>

theorem parent_literal_counterexample:
  "path_extname dotted_dir_host ''..'' = [] \<and>
   path_resolve dotted_dir_host (path_dirname dotted_dir_host ''/p/v1.2/sub/main.lua'') ''..''
     = ''/p/v1.2'' \<and>
   \<not> existsSync dotted_dir_host ''/p/v1.2.lua'' \<and>
   \<not> existsSync dotted_dir_host ''/p/v1.2.luau'' \<and>
   resolveModulePath dotted_dir_host ''/p'' ''/p/v1.2/sub/main.lua'' ''..'' = Inr ''v1.2''"
  by (simp add: dotted_dir_host_def resolveModulePath_def toLowerCase_def posix_eval)

text \<open>
  C4, amended. \<^verbatim>\<open>resolveModulePath\<close> reads the extension with \<^verbatim>\<open>path.extname\<close> from the
  absolute path that the literal resolves to. When that path has no extension it probes
  \<^verbatim>\<open>.lua\<close> first and \<^verbatim>\<open>.luau\<close> second, takes the first file that exists, and fails with
  ModuleNotFound when neither exists. When that path has an extension it takes that exact
  file when it exists and fails with ModuleNotFound otherwise. The path returned is the
  file's path relative to the base directory with every backslash replaced by a slash,
  so it holds no backslash.
\<close>

theorem resolveModulePath_probes:
  assumes "absolute = path_resolve H (path_dirname H currentFilePath) requiredPath"
  shows "(path_extname H absolute = [] \<and> existsSync H (absolute @ ''.lua'') \<longrightarrow>
            resolveModulePath H baseDir currentFilePath requiredPath
              = Inr (backslashes_to_slashes (path_relative H baseDir (absolute @ ''.lua'')))) \<and>
         (path_extname H absolute = [] \<and> \<not> existsSync H (absolute @ ''.lua'')
            \<and> existsSync H (absolute @ ''.luau'') \<longrightarrow>
            resolveModulePath H baseDir currentFilePath requiredPath
              = Inr (backslashes_to_slashes (path_relative H baseDir (absolute @ ''.luau'')))) \<and>
         (path_extname H absolute = [] \<and> \<not> existsSync H (absolute @ ''.lua'')
            \<and> \<not> existsSync H (absolute @ ''.luau'') \<longrightarrow>
            (\<exists>m. resolveModulePath H baseDir currentFilePath requiredPath = Inl (ModuleNotFound m))) \<and>
         (path_extname H absolute \<noteq> [] \<and> existsSync H absolute \<longrightarrow>
            resolveModulePath H baseDir currentFilePath requiredPath
              = Inr (backslashes_to_slashes (path_relative H baseDir absolute))) \<and>
         (path_extname H absolute \<noteq> [] \<and> \<not> existsSync H absolute \<longrightarrow>
            (\<exists>m. resolveModulePath H baseDir currentFilePath requiredPath = Inl (ModuleNotFound m))) \<and>
         (\<forall>r. resolveModulePath H baseDir currentFilePath requiredPath = Inr r \<longrightarrow>
            CHR 0x5C \<notin> set r)"
  using assms
  by (auto simp: resolveModulePath_def Let_def toLowerCase_empty no_backslash)

text \<open>
  In a directory with \<^verbatim>\<open>x.lua\<close>, \<^verbatim>\<open>x.luau\<close> and \<^verbatim>\<open>y.luau\<close>: \<^verbatim>\<open>./x\<close> is \<^verbatim>\<open>x.lua\<close>,
  \<^verbatim>\<open>./y\<close> is \<^verbatim>\<open>y.luau\<close>, \<^verbatim>\<open>./z\<close> is not found, \<^verbatim>\<open>./x.luau\<close> is that file, and
  \<^verbatim>\<open>./y.lua\<close> is not found although \<^verbatim>\<open>y.luau\<close> exists.
\<close>

theorem resolveModulePath_probes_witness:
  "resolveModulePath (posix_host probe_tree) ''/p'' ''/p/main.lua'' ''./x'' = Inr ''x.lua'' \<and>
   resolveModulePath (posix_host probe_tree) ''/p'' ''/p/main.lua'' ''./y'' = Inr ''y.luau'' \<and>
   (\<exists>m. resolveModulePath (posix_host probe_tree) ''/p'' ''/p/main.lua'' ''./z'' = Inl (ModuleNotFound m)) \<and>
   resolveModulePath (posix_host probe_tree) ''/p'' ''/p/main.lua'' ''./x.luau'' = Inr ''x.luau'' \<and>
   (\<exists>m. resolveModulePath (posix_host probe_tree) ''/p'' ''/p/main.lua'' ''./y.lua'' = Inl (ModuleNotFound m))"
proof -
  note t = resolveModulePath_probes [OF refl, of "posix_host probe_tree" _ _ "''/p''"]
  have "resolveModulePath (posix_host probe_tree) ''/p'' ''/p/main.lua'' ''./x'' = Inr ''x.lua''"
    using t [of "''/p/main.lua''" "''./x''"]
    by (simp add: posix_eval probe_tree_def)
  moreover have "resolveModulePath (posix_host probe_tree) ''/p'' ''/p/main.lua'' ''./y'' = Inr ''y.luau''"
    using t [of "''/p/main.lua''" "''./y''"]
    by (simp add: posix_eval probe_tree_def)
  moreover have "\<exists>m. resolveModulePath (posix_host probe_tree) ''/p'' ''/p/main.lua'' ''./z'' = Inl (ModuleNotFound m)"
    using t [of "''/p/main.lua''" "''./z''"]
    by (simp add: posix_eval probe_tree_def)
  moreover have "resolveModulePath (posix_host probe_tree) ''/p'' ''/p/main.lua'' ''./x.luau'' = Inr ''x.luau''"
    using t [of "''/p/main.lua''" "''./x.luau''"]
    by (simp add: posix_eval probe_tree_def)
  moreover have "\<exists>m. resolveModulePath (posix_host probe_tree) ''/p'' ''/p/main.lua'' ''./y.lua'' = Inl (ModuleNotFound m)"
    using t [of "''/p/main.lua''" "''./y.lua''"]
    by (simp add: posix_eval probe_tree_def)
  ultimately show ?thesis by blast
qed

section \<open>The transformer\<close>


lemma quotedMatch_SomeD:
  assumes "quotedMatch arg = Some body"
  shows "\<exists>q1 q2. is_quote q1 \<and> is_quote q2 \<and> body \<noteq> [] \<and> (\<forall>c \<in> set body. \<not> is_quote c)
           \<and> arg = q1 # body @ [q2]"
proof (cases arg)
  case Nil
  with assms show ?thesis by (simp add: quotedMatch_def)
next
  case (Cons q r)
  with assms have q: "is_quote q" and r: "r \<noteq> []" and l: "is_quote (last r)"
    and b: "butlast r \<noteq> []" "\<forall>c \<in> set (butlast r). \<not> is_quote c" and body: "body = butlast r"
    by (auto simp: quotedMatch_def split: if_splits)
  from r have "r = butlast r @ [last r]" by simp
  with Cons q l b body show ?thesis by metis
qed


lemma rewrite_append:
  "rewrite H baseDir cur (ps @ qs) =
     (case rewrite H baseDir cur ps of
        Inl e \<Rightarrow> Inl e
      | Inr (text1, subs1) \<Rightarrow>
          (case rewrite H baseDir cur qs of
             Inl e \<Rightarrow> Inl e
           | Inr (text2, subs2) \<Rightarrow> Inr (text1 @ text2, subs1 @ subs2)))"
proof (induction ps)
  case Nil
  show ?case by (simp split: sum.splits)
next
  case (Cons p ps)
  then show ?case by (cases p) (auto split: sum.splits)
qed




text \<open>
  C8, as stated, fails: the argument \<^verbatim>\<open>'./y"\<close> is not a string literal, yet the
  call is resolved and \<^verbatim>\<open>y.luau\<close> becomes a dependency.
\<close>

theorem passthrough_counterexample:
  \<open>\<not> simple_string_literal [CHR 0x27, CHR ''.'', CHR ''/'', CHR ''y'', CHR 0x22] \<and>
   parseAndTransform (posix_host probe_tree) ''/p'' ''return require('./y")'' ''/p/main.lua''
     = Inr (''return import("y.luau")'', [''y.luau''])\<close>
  by (simp add: simple_string_literal_def is_quote_def scan_eval resolveModulePath_def
      toLowerCase_def posix_eval probe_tree_def)

text \<open>
  C8, amended. For every import call site whose argument does not have the shape quote
  character, one or more characters that are not quote characters, quote character, the
  site adds no dependency and is rewritten to \<^verbatim>\<open>import(\<close>, the argument text as it was
  captured, and \<^verbatim>\<open>)\<close>: the result for the whole text is the result for the pieces before
  the site, this call, and the result for the pieces after it, and the dependencies are
  those of the pieces before and after.
\<close>

theorem dynamic_import_passthrough:
  assumes "scan None luaContent = before @ Call arg # after"
    and "\<not> (\<exists>q1 body q2. is_quote q1 \<and> is_quote q2 \<and> body \<noteq> []
              \<and> (\<forall>c \<in> set body. \<not> is_quote c) \<and> arg = q1 # body @ [q2])"
  shows "parseAndTransform H baseDir luaContent currentFilePath =
           (case rewrite H baseDir currentFilePath before of
              Inl e \<Rightarrow> Inl e
            | Inr (text1, subs1) \<Rightarrow>
                (case rewrite H baseDir currentFilePath after of
                   Inl e \<Rightarrow> Inl e
                 | Inr (text2, subs2) \<Rightarrow>
                     Inr (text1 @ ''import('' @ arg @ '')'' @ text2, subs1 @ subs2)))"
proof -
  have "quotedMatch arg = None"
  proof (cases "quotedMatch arg")
    case (Some body)
    from quotedMatch_SomeD [OF this] assms(2) show ?thesis by blast
  qed simp
  then have "replacer H baseDir currentFilePath arg = Inr (''import('' @ arg @ '')'', [])"
    by (simp add: replacer_def)
  then show ?thesis
    by (simp add: parseAndTransform_def assms(1) rewrite_append split: sum.splits)
qed

text \<open>
  A computed argument: \<^verbatim>\<open>require(name .. "x")\<close> becomes \<^verbatim>\<open>import(name .. "x")\<close> and
  the dependency list stays empty.
\<close>

theorem dynamic_import_passthrough_witness:
  \<open>parseAndTransform (posix_host probe_tree) ''/p'' ''local m = require(name .. "x") return m'' ''/p/main.lua''
     = Inr (''local m = import(name .. "x") return m'', [])\<close>
proof -
  have s: \<open>scan None ''local m = require(name .. "x") return m''
      = map Chr ''local m = '' @ Call ''name .. "x"'' # map Chr '' return m''\<close>
    by (simp add: word_boundary_def match_require_def is_space_def is_word_def)
  have n: \<open>\<not> (\<exists>q1 body q2. is_quote q1 \<and> is_quote q2 \<and> body \<noteq> []
              \<and> (\<forall>c \<in> set body. \<not> is_quote c) \<and> ''name .. "x"'' = q1 # body @ [q2])\<close>
    by (auto simp: is_quote_def)
  show ?thesis
    using dynamic_import_passthrough [OF s n, of "posix_host probe_tree" "''/p''" "''/p/main.lua''"]
    by simp
qed

section \<open>Error messages\<close>




section \<open>The loader and the host bridge of the artifact\<close>

lemma lua_import_memoizes:
  assumes "bundle_table s name = LFun f" and "call f s = Returned v s'"
    and "truthy v" and "\<forall>g. v \<noteq> LFun g"
  shows "lua_import call name s = Returned v (s'\<lparr>bundle_table := (bundle_table s')(name := v)\<rparr>)"
    and "lua_import call' name (s'\<lparr>bundle_table := (bundle_table s')(name := v)\<rparr>)
           = Returned v (s'\<lparr>bundle_table := (bundle_table s')(name := v)\<rparr>)"
  using assms by (auto simp: lua_import_def truthy_def split: lua_value.splits)

lemma lua_import_absent:
  "bundle_table s name = LNil \<Longrightarrow>
   lua_import call name s = Raised (''Module '' @ [CHR 0x22] @ name @ [CHR 0x22] @ '' not found in bundle'') s"
  by (simp add: lua_import_def truthy_def dq_def)

text \<open>
  C6. The loader does not memoize every module. A module whose body returns a function:
  the first \<^verbatim>\<open>import\<close> returns that function and stores it, and the second takes the
  stored function for a body that has not run, calls it and returns what it returns, here
  42. A module whose body returns nothing: the first \<^verbatim>\<open>import\<close> returns \<^verbatim>\<open>nil\<close> and
  stores it, which removes the key, and the second raises the error for an unknown
  module.
\<close>

theorem import_memo_fails:
  "lua_import example_call ''m.lua'' example_state
     = Returned (LFun 1) (example_state\<lparr>bundle_table := (bundle_table example_state)(''m.lua'' := LFun 1)\<rparr>) \<and>
   lua_import example_call ''m.lua''
       (example_state\<lparr>bundle_table := (bundle_table example_state)(''m.lua'' := LFun 1)\<rparr>)
     = Returned (LNum 42)
         (example_state\<lparr>bundle_table := (bundle_table example_state)(''m.lua'' := LNum 42)\<rparr>) \<and>
   lua_import example_call ''n.lua'' example_state
     = Returned LNil (example_state\<lparr>bundle_table := (bundle_table example_state)(''n.lua'' := LNil)\<rparr>) \<and>
   lua_import example_call ''n.lua''
       (example_state\<lparr>bundle_table := (bundle_table example_state)(''n.lua'' := LNil)\<rparr>)
     = Raised (''Module '' @ [CHR 0x22] @ ''n.lua'' @ [CHR 0x22] @ '' not found in bundle'')
         (example_state\<lparr>bundle_table := (bundle_table example_state)(''n.lua'' := LNil)\<rparr>)"
  by (simp add: lua_import_def example_call_def example_state_def truthy_def dq_def)

text \<open>
  C7, as stated, fails. When the loader of the environment raises, the error leaves
  \<^verbatim>\<open>game_require\<close> with the identity at 2. When it returns a value, the continuation
  runs before the identity is set again: it sees identity 2.
\<close>

theorem game_require_counterexample:
  "game_require raising_require None ''Shared'' example_state
     = Raised ''Module not found: Shared'' (example_state\<lparr>identity := 2\<rparr>) \<and>
   identity example_state = 7 \<and>
   game_require table_require (Some recording_callback) ''Shared'' example_state
     = Returned (LTable 1)
         (example_state\<lparr>bundle_table := (bundle_table example_state)(''seen'' := LNum 2), identity := 7\<rparr>)"
  by (simp add: game_require_def raising_require_def table_require_def recording_callback_def
      example_state_def)

text \<open>
  C7, amended. \<^verbatim>\<open>game_require\<close> sets the identity to 2 and calls the loader of the
  environment. When the loader returns \<^verbatim>\<open>nil\<close>, the identity is set to 7 and the error
  is raised. When it returns a value and no continuation is given, the identity is set to
  7 and the value is returned. When it returns a value and a continuation is given, the
  continuation is called with the value in the state that the loader left, and when it
  returns, the identity is set to 7 and the value is returned.
\<close>

theorem game_require_normal_paths:
  assumes "require module (s\<lparr>identity := 2\<rparr>) = Returned imported s1"
  shows "(imported = LNil \<longrightarrow>
            game_require require callback module s
              = Raised (''Failed to require game module '' @ [CHR 0x22] @ module @ [CHR 0x22])
                  (s1\<lparr>identity := 7\<rparr>)) \<and>
         (imported \<noteq> LNil \<and> callback = None \<longrightarrow>
            game_require require callback module s = Returned imported (s1\<lparr>identity := 7\<rparr>)) \<and>
         (\<forall>cb ignored s2. imported \<noteq> LNil \<and> callback = Some cb
              \<and> cb imported s1 = Returned ignored s2 \<longrightarrow>
            game_require require callback module s = Returned imported (s2\<lparr>identity := 7\<rparr>))"
  using assms by (auto simp: game_require_def dq_def split: option.splits)

text \<open>
  The three paths on the example program.
\<close>

theorem game_require_normal_paths_witness:
  "game_require table_require (Some recording_callback) ''Shared'' example_state
     = Returned (LTable 1)
         (example_state\<lparr>bundle_table := (bundle_table example_state)(''seen'' := LNum 2), identity := 7\<rparr>) \<and>
   game_require table_require None ''Shared'' example_state
     = Returned (LTable 1) (example_state\<lparr>identity := 7\<rparr>) \<and>
   game_require table_require None ''Other'' example_state
     = Raised (''Failed to require game module '' @ [CHR 0x22] @ ''Other'' @ [CHR 0x22])
         (example_state\<lparr>identity := 7\<rparr>)"
proof -
  have a: "table_require ''Shared'' (example_state\<lparr>identity := 2\<rparr>)
      = Returned (LTable 1) (example_state\<lparr>identity := 2\<rparr>)"
    by (simp add: table_require_def)
  have b: "table_require ''Other'' (example_state\<lparr>identity := 2\<rparr>)
      = Returned LNil (example_state\<lparr>identity := 2\<rparr>)"
    by (simp add: table_require_def)
  have c: "recording_callback (LTable 1) (example_state\<lparr>identity := 2\<rparr>)
      = Returned LNil (example_state\<lparr>bundle_table := (bundle_table example_state)(''seen'' := LNum 2), identity := 2\<rparr>)"
    by (simp add: recording_callback_def)
  show ?thesis
    using game_require_normal_paths [where require = table_require and s = example_state
        and callback = "Some recording_callback", OF a] c
      game_require_normal_paths [where require = table_require and s = example_state
        and callback = None, OF a]
      game_require_normal_paths [where require = table_require and s = example_state
        and callback = None, OF b]
    by simp
qed

section \<open>The traversal\<close>

lemma loadModule_Inr:
  assumes "loadModule H baseDir n stack prev st = Inr st'"
  obtains (known) "path_resolve H baseDir n \<notin> set stack"
      and "path_resolve H baseDir n \<in> set (visited st)" and "st' = st"
  | (loaded) c nc subs st'' where "path_resolve H baseDir n \<notin> set stack"
      and "path_resolve H baseDir n \<notin> set (visited st)"
      and "readFileSync H (path_resolve H baseDir n) = Some c"
      and "parseAndTransform H baseDir c (path_resolve H baseDir n) = Inr (nc, subs)"
      and "loadModules H baseDir subs (stack @ [path_resolve H baseDir n]) (path_resolve H baseDir n)
             (st\<lparr>modules := assign (modules st) n nc\<rparr>) = Inr st''"
      and "st' = st''\<lparr>visited := visited_add (visited st'') (path_resolve H baseDir n)\<rparr>"
  using assms
  by (subst (asm) loadModule.simps)
    (auto simp del: loadModule.simps simp: Let_def split: if_splits option.splits sum.splits)

lemma loadModules_Cons_Inr:
  assumes "loadModules H baseDir (s # rest) stack prev st = Inr st'"
  obtains st1 where "loadModule H baseDir s stack prev st = Inr st1"
    and "loadModules H baseDir rest stack prev st1 = Inr st'"
  using assms by (auto simp del: loadModule.simps split: sum.splits)

lemma load_success_induct:
  assumes known: "\<And>H baseDir n stack prev st.
      path_resolve H baseDir n \<notin> set stack \<Longrightarrow> path_resolve H baseDir n \<in> set (visited st) \<Longrightarrow>
      P H baseDir n stack prev st st"
    and loaded: "\<And>H baseDir n stack prev st c nc subs st''.
      path_resolve H baseDir n \<notin> set stack \<Longrightarrow> path_resolve H baseDir n \<notin> set (visited st) \<Longrightarrow>
      readFileSync H (path_resolve H baseDir n) = Some c \<Longrightarrow>
      parseAndTransform H baseDir c (path_resolve H baseDir n) = Inr (nc, subs) \<Longrightarrow>
      loadModules H baseDir subs (stack @ [path_resolve H baseDir n]) (path_resolve H baseDir n)
        (st\<lparr>modules := assign (modules st) n nc\<rparr>) = Inr st'' \<Longrightarrow>
      Q H baseDir subs (stack @ [path_resolve H baseDir n]) (path_resolve H baseDir n)
        (st\<lparr>modules := assign (modules st) n nc\<rparr>) st'' \<Longrightarrow>
      P H baseDir n stack prev st
        (st''\<lparr>visited := visited_add (visited st'') (path_resolve H baseDir n)\<rparr>)"
    and nil: "\<And>H baseDir stack prev st. Q H baseDir [] stack prev st st"
    and cons: "\<And>H baseDir s rest stack prev st st1 st2.
      loadModule H baseDir s stack prev st = Inr st1 \<Longrightarrow> P H baseDir s stack prev st st1 \<Longrightarrow>
      loadModules H baseDir rest stack prev st1 = Inr st2 \<Longrightarrow> Q H baseDir rest stack prev st1 st2 \<Longrightarrow>
      Q H baseDir (s # rest) stack prev st st2"
  shows "(\<forall>st'. loadModule H baseDir n stack prev st = Inr st' \<longrightarrow> P H baseDir n stack prev st st') \<and>
    (\<forall>st'. loadModules H baseDir ns stack prev st = Inr st' \<longrightarrow> Q H baseDir ns stack prev st st')"
proof -
  have "\<forall>st'. loadModule H baseDir n stack prev st = Inr st' \<longrightarrow> P H baseDir n stack prev st st'"
    and "\<forall>st'. loadModules H baseDir ns stack prev st = Inr st' \<longrightarrow> Q H baseDir ns stack prev st st'"
  proof (induction H baseDir n stack prev st and H baseDir ns stack prev st
    rule: loadModule_loadModules.induct)
  case (1 H baseDir moduleName stack previousPath st)
  show ?case
  proof (intro allI impI)
    fix st'
    assume run: "loadModule H baseDir moduleName stack previousPath st = Inr st'"
    from run show "P H baseDir moduleName stack previousPath st st'"
    proof (cases rule: loadModule_Inr)
      case known
      then show ?thesis using assms(1) by simp
    next
      case (loaded c nc subs st'')
      from "1.IH" [OF refl loaded(1,2,3,4) refl] loaded(5)
      have "Q H baseDir subs (stack @ [path_resolve H baseDir moduleName])
          (path_resolve H baseDir moduleName) (st\<lparr>modules := assign (modules st) moduleName nc\<rparr>) st''"
        by blast
      with loaded show ?thesis using assms(2) by simp
    qed
  qed
next
  case (2 H baseDir stack previousPath st)
  show ?case using nil by simp
next
  case (3 H baseDir subModule rest stack previousPath st)
  show ?case
  proof (intro allI impI)
    fix st'
    assume "loadModules H baseDir (subModule # rest) stack previousPath st = Inr st'"
    then obtain st1 where a: "loadModule H baseDir subModule stack previousPath st = Inr st1"
      and b: "loadModules H baseDir rest stack previousPath st1 = Inr st'"
      by (rule loadModules_Cons_Inr)
    from "3.IH"(1) a have p: "P H baseDir subModule stack previousPath st st1" by blast
    from "3.IH"(2) [OF a] b have q: "Q H baseDir rest stack previousPath st1 st'" by blast
    from cons [OF a p b q] show "Q H baseDir (subModule # rest) stack previousPath st st'" .
  qed
  qed
  then show ?thesis by blast
qed

lemma assign_new: "k \<notin> fst ` set kvs \<Longrightarrow> assign kvs k v = kvs @ [(k, v)]"
  by (induction kvs) auto

lemma rewrite_requires:
  "rewrite H baseDir cur ps = Inr (newText, subs) \<Longrightarrow> requires_of H baseDir cur ps = subs"
proof (induction H baseDir cur ps arbitrary: newText subs rule: rewrite.induct)
  case (1 H baseDir cur)
  then show ?case by simp
next
  case (2 H baseDir cur c ps)
  then show ?case by (auto split: sum.splits)
next
  case (3 H baseDir cur arg ps)
  then show ?case by (auto simp: replacer_def split: sum.splits option.splits)
qed

lemma submodules_eq:
  "readFileSync H p = Some c \<Longrightarrow> parseAndTransform H baseDir c p = Inr (nc, subs) \<Longrightarrow>
   submodules H baseDir p = subs"
  by (simp add: submodules_def parseAndTransform_def rewrite_requires)

lemma set_visited_add: "set (visited_add vs p) = insert p (set vs)"
  by (auto simp: visited_add_def)

lemma load_discovers:
  "(\<forall>st'. loadModule H baseDir n stack prev st = Inr st' \<longrightarrow> discovered H baseDir stack st \<longrightarrow>
      discovered H baseDir stack st' \<and>
      (\<forall>ns r. discover H baseDir ns (table_keys st') r \<longrightarrow> discover H baseDir (n # ns) (table_keys st) r)) \<and>
   (\<forall>st'. loadModules H baseDir ms stack prev st = Inr st' \<longrightarrow> discovered H baseDir stack st \<longrightarrow>
      discovered H baseDir stack st' \<and>
      (\<forall>ns r. discover H baseDir ns (table_keys st') r \<longrightarrow> discover H baseDir (ms @ ns) (table_keys st) r))"
proof (rule load_success_induct [where
      P = "\<lambda>H baseDir n stack prev st st'. discovered H baseDir stack st \<longrightarrow>
        discovered H baseDir stack st' \<and>
        (\<forall>ns r. discover H baseDir ns (table_keys st') r \<longrightarrow> discover H baseDir (n # ns) (table_keys st) r)"
      and Q = "\<lambda>H baseDir ms stack prev st st'. discovered H baseDir stack st \<longrightarrow>
        discovered H baseDir stack st' \<and>
        (\<forall>ns r. discover H baseDir ns (table_keys st') r \<longrightarrow> discover H baseDir (ms @ ns) (table_keys st) r)"];
    (intro impI)?)
  fix H :: host and baseDir n stack prev and st :: tstate
  assume "path_resolve H baseDir n \<in> set (visited st)" and "discovered H baseDir stack st"
  then show "discovered H baseDir stack st \<and>
      (\<forall>ns r. discover H baseDir ns (table_keys st) r \<longrightarrow> discover H baseDir (n # ns) (table_keys st) r)"
    by (auto simp: discovered_def intro: discover.known)
next
  fix H :: host and baseDir n stack prev and st st'' :: tstate and c nc subs
  let ?mp = "path_resolve H baseDir n"
  let ?st1 = "st\<lparr>modules := assign (modules st) n nc\<rparr>"
  let ?st' = "st''\<lparr>visited := visited_add (visited st'') ?mp\<rparr>"
  assume fresh: "?mp \<notin> set stack" "?mp \<notin> set (visited st)"
    and read: "readFileSync H ?mp = Some c"
    and parse: "parseAndTransform H baseDir c ?mp = Inr (nc, subs)"
    and ih: "discovered H baseDir (stack @ [?mp]) ?st1 \<longrightarrow>
      discovered H baseDir (stack @ [?mp]) st'' \<and>
      (\<forall>ns r. discover H baseDir ns (table_keys st'') r \<longrightarrow>
         discover H baseDir (subs @ ns) (table_keys ?st1) r)"
    and inv: "discovered H baseDir stack st"
  from fresh inv have new: "?mp \<notin> path_resolve H baseDir ` set (table_keys st)"
    by (simp add: discovered_def)
  then have "n \<notin> fst ` set (modules st)" by (auto simp: table_keys_def)
  then have keys1: "table_keys ?st1 = table_keys st @ [n]"
    by (simp add: table_keys_def assign_new)
  with inv new have "discovered H baseDir (stack @ [?mp]) ?st1"
    by (auto simp: discovered_def)
  with ih have inv'': "discovered H baseDir (stack @ [?mp]) st''"
    and sim: "\<And>ns r. discover H baseDir ns (table_keys st'') r \<Longrightarrow>
         discover H baseDir (subs @ ns) (table_keys st @ [n]) r"
    by (auto simp: keys1)
  have keys': "table_keys ?st' = table_keys st''" by (simp add: table_keys_def)
  from inv'' have "discovered H baseDir stack ?st'"
    by (auto simp: discovered_def keys' set_visited_add)
  moreover have "discover H baseDir (n # ns) (table_keys st) r"
    if "discover H baseDir ns (table_keys ?st') r" for ns r
  proof (rule discover.fresh [OF new])
    from that sim show "discover H baseDir (submodules H baseDir ?mp @ ns) (table_keys st @ [n]) r"
      by (simp add: keys' submodules_eq [OF read parse])
  qed
  ultimately show "discovered H baseDir stack ?st' \<and>
      (\<forall>ns r. discover H baseDir ns (table_keys ?st') r \<longrightarrow> discover H baseDir (n # ns) (table_keys st) r)"
    by blast
next
  fix H :: host and baseDir stack prev and st :: tstate
  assume "discovered H baseDir stack st"
  then show "discovered H baseDir stack st \<and>
      (\<forall>ns r. discover H baseDir ns (table_keys st) r \<longrightarrow> discover H baseDir ([] @ ns) (table_keys st) r)"
    by simp
next
  fix H :: host and baseDir s rest stack prev and st st1 st2 :: tstate
  assume "discovered H baseDir stack st \<longrightarrow> discovered H baseDir stack st1 \<and>
      (\<forall>ns r. discover H baseDir ns (table_keys st1) r \<longrightarrow> discover H baseDir (s # ns) (table_keys st) r)"
    and "discovered H baseDir stack st1 \<longrightarrow> discovered H baseDir stack st2 \<and>
      (\<forall>ns r. discover H baseDir ns (table_keys st2) r \<longrightarrow> discover H baseDir (rest @ ns) (table_keys st1) r)"
    and "discovered H baseDir stack st"
  then show "discovered H baseDir stack st2 \<and>
      (\<forall>ns r. discover H baseDir ns (table_keys st2) r \<longrightarrow> discover H baseDir ((s # rest) @ ns) (table_keys st) r)"
    by simp
qed

lemma load_finishes:
  "(\<forall>st'. loadModule H baseDir n stack prev st = Inr st' \<longrightarrow>
      finished_order H baseDir (rev (visited st)) \<longrightarrow>
      finished_order H baseDir (rev (visited st')) \<and> set (visited st) \<subseteq> set (visited st') \<and>
      path_resolve H baseDir n \<in> set (visited st')) \<and>
   (\<forall>st'. loadModules H baseDir ms stack prev st = Inr st' \<longrightarrow>
      finished_order H baseDir (rev (visited st)) \<longrightarrow>
      finished_order H baseDir (rev (visited st')) \<and> set (visited st) \<subseteq> set (visited st') \<and>
      path_resolve H baseDir ` set ms \<subseteq> set (visited st'))"
proof (rule load_success_induct [where
      P = "\<lambda>H baseDir n stack prev st st'. finished_order H baseDir (rev (visited st)) \<longrightarrow>
        finished_order H baseDir (rev (visited st')) \<and> set (visited st) \<subseteq> set (visited st') \<and>
        path_resolve H baseDir n \<in> set (visited st')"
      and Q = "\<lambda>H baseDir ms stack prev st st'. finished_order H baseDir (rev (visited st)) \<longrightarrow>
        finished_order H baseDir (rev (visited st')) \<and> set (visited st) \<subseteq> set (visited st') \<and>
        path_resolve H baseDir ` set ms \<subseteq> set (visited st')"];
    (intro impI)?)
  fix H :: host and baseDir n and st :: tstate
  assume "path_resolve H baseDir n \<in> set (visited st)" and "finished_order H baseDir (rev (visited st))"
  then show "finished_order H baseDir (rev (visited st)) \<and> set (visited st) \<subseteq> set (visited st) \<and>
      path_resolve H baseDir n \<in> set (visited st)"
    by simp
next
  fix H :: host and baseDir n and st st'' :: tstate and c nc subs
  let ?mp = "path_resolve H baseDir n"
  let ?st1 = "st\<lparr>modules := assign (modules st) n nc\<rparr>"
  let ?st' = "st''\<lparr>visited := visited_add (visited st'') ?mp\<rparr>"
  assume read: "readFileSync H ?mp = Some c"
    and parse: "parseAndTransform H baseDir c ?mp = Inr (nc, subs)"
    and ih: "finished_order H baseDir (rev (visited ?st1)) \<longrightarrow>
      finished_order H baseDir (rev (visited st'')) \<and> set (visited ?st1) \<subseteq> set (visited st'') \<and>
      path_resolve H baseDir ` set subs \<subseteq> set (visited st'')"
    and inv: "finished_order H baseDir (rev (visited st))"
  from ih inv have a: "finished_order H baseDir (rev (visited st''))"
    and b: "set (visited st) \<subseteq> set (visited st'')"
    and c: "path_resolve H baseDir ` set subs \<subseteq> set (visited st'')"
    by simp_all
  from a c have "finished_order H baseDir (rev (visited ?st'))"
    by (simp add: visited_add_def submodules_eq [OF read parse])
  with b show "finished_order H baseDir (rev (visited ?st')) \<and> set (visited st) \<subseteq> set (visited ?st') \<and>
      ?mp \<in> set (visited ?st')"
    by (auto simp: set_visited_add)
next
  fix H :: host and baseDir and st :: tstate
  assume "finished_order H baseDir (rev (visited st))"
  then show "finished_order H baseDir (rev (visited st)) \<and> set (visited st) \<subseteq> set (visited st) \<and>
      path_resolve H baseDir ` set [] \<subseteq> set (visited st)"
    by simp
next
  fix H :: host and baseDir s rest and st st1 st2 :: tstate
  assume "finished_order H baseDir (rev (visited st)) \<longrightarrow>
      finished_order H baseDir (rev (visited st1)) \<and> set (visited st) \<subseteq> set (visited st1) \<and>
      path_resolve H baseDir s \<in> set (visited st1)"
    and "finished_order H baseDir (rev (visited st1)) \<longrightarrow>
      finished_order H baseDir (rev (visited st2)) \<and> set (visited st1) \<subseteq> set (visited st2) \<and>
      path_resolve H baseDir ` set rest \<subseteq> set (visited st2)"
    and "finished_order H baseDir (rev (visited st))"
  then show "finished_order H baseDir (rev (visited st2)) \<and> set (visited st) \<subseteq> set (visited st2) \<and>
      path_resolve H baseDir ` set (s # rest) \<subseteq> set (visited st2)"
    by auto
qed




lemma collect_Inr:
  assumes "collect H baseDir entryFile = Inr (transformedEntry, st)"
  obtains entryContent where
    "readFileSync H (path_join H baseDir entryFile) = Some entryContent"
    and "parseAndTransform H baseDir entryContent (path_join H baseDir entryFile)
           = Inr (transformedEntry, entry_submodules H baseDir entryFile)"
    and "loadModules H baseDir (entry_submodules H baseDir entryFile) [] (path_join H baseDir entryFile)
           \<lparr>visited = [], modules = []\<rparr> = Inr st"
proof -
  from assms obtain entryContent entryImports where
    read: "readFileSync H (path_join H baseDir entryFile) = Some entryContent"
    and parse: "parseAndTransform H baseDir entryContent (path_join H baseDir entryFile)
           = Inr (transformedEntry, entryImports)"
    and run: "loadModules H baseDir entryImports [] (path_join H baseDir entryFile)
           \<lparr>visited = [], modules = []\<rparr> = Inr st"
    by (auto simp: collect_def Let_def simp del: loadModule.simps split: option.splits sum.splits)
  from submodules_eq [OF read parse]
  have "entry_submodules H baseDir entryFile = entryImports"
    by (simp add: entry_submodules_def)
  with read parse run show thesis using that by simp
qed






lemma map_fst_assign:
  "map fst (assign kvs k v) = (if k \<in> set (map fst kvs) then map fst kvs else map fst kvs @ [k])"
  by (induction kvs) force+

lemma keys_assign: "fst ` set (assign kvs k v) = insert k (fst ` set kvs)"
proof -
  have "fst ` set (assign kvs k v) = set (map fst (assign kvs k v))" by simp
  also have "\<dots> = insert k (set (map fst kvs))"
    by (subst map_fst_assign) auto
  finally show ?thesis by simp
qed

lemma distinct_assign: "distinct (map fst kvs) \<Longrightarrow> distinct (map fst (assign kvs k v))"
proof (induction kvs)
  case Nil
  show ?case by simp
next
  case (Cons kv kvs)
  have "fst ` set (assign kvs k v) = insert k (fst ` set kvs)"
    by (rule keys_assign)
  with Cons show ?case by (cases kv) auto
qed

lemma set_assign: "set (assign kvs k v) \<subseteq> insert (k, v) (set kvs)"
  by (induction kvs) (auto split: if_splits)

lemma load_table:
  "(\<forall>st'. loadModule H baseDir n stack prev st = Inr st' \<longrightarrow>
      distinct (map fst (modules st)) \<and> rewritten H baseDir (modules st) \<longrightarrow>
      distinct (map fst (modules st')) \<and> rewritten H baseDir (modules st')) \<and>
   (\<forall>st'. loadModules H baseDir ms stack prev st = Inr st' \<longrightarrow>
      distinct (map fst (modules st)) \<and> rewritten H baseDir (modules st) \<longrightarrow>
      distinct (map fst (modules st')) \<and> rewritten H baseDir (modules st'))"
proof (rule load_success_induct [where
      P = "\<lambda>H baseDir n stack prev st st'.
        distinct (map fst (modules st)) \<and> rewritten H baseDir (modules st) \<longrightarrow>
        distinct (map fst (modules st')) \<and> rewritten H baseDir (modules st')"
      and Q = "\<lambda>H baseDir ms stack prev st st'.
        distinct (map fst (modules st)) \<and> rewritten H baseDir (modules st) \<longrightarrow>
        distinct (map fst (modules st')) \<and> rewritten H baseDir (modules st')"];
    (intro impI)?)
  fix H :: host and baseDir n and st st'' :: tstate and c nc subs
  let ?mp = "path_resolve H baseDir n"
  let ?st1 = "st\<lparr>modules := assign (modules st) n nc\<rparr>"
  let ?st' = "st''\<lparr>visited := visited_add (visited st'') ?mp\<rparr>"
  assume read: "readFileSync H ?mp = Some c"
    and parse: "parseAndTransform H baseDir c ?mp = Inr (nc, subs)"
    and ih: "distinct (map fst (modules ?st1)) \<and> rewritten H baseDir (modules ?st1) \<longrightarrow>
        distinct (map fst (modules st'')) \<and> rewritten H baseDir (modules st'')"
    and inv: "distinct (map fst (modules st)) \<and> rewritten H baseDir (modules st)"
  from inv have "distinct (map fst (modules ?st1))" by (simp add: distinct_assign)
  moreover from inv read parse have "rewritten H baseDir (modules ?st1)"
    using set_assign [of "modules st" n nc] by (auto simp: rewritten_def)
  ultimately show "distinct (map fst (modules ?st')) \<and> rewritten H baseDir (modules ?st')"
    using ih by simp
qed auto




lemma discover_reachable:
  "discover H baseDir ns seen r \<Longrightarrow> set r \<subseteq> set seen \<union> (requires H baseDir)\<^sup>* `` set ns"
proof (induction rule: discover.induct)
  case (finished seen)
  show ?case by simp
next
  case (known n seen ns r)
  then show ?case by auto
next
  case (fresh n seen ns r)
  have "(requires H baseDir)\<^sup>* `` set (submodules H baseDir (path_resolve H baseDir n) @ ns)
      \<subseteq> (requires H baseDir)\<^sup>* `` set (n # ns)"
  proof
    fix k
    assume "k \<in> (requires H baseDir)\<^sup>* `` set (submodules H baseDir (path_resolve H baseDir n) @ ns)"
    then obtain m where m: "m \<in> set (submodules H baseDir (path_resolve H baseDir n)) \<union> set ns"
      and mk: "(m, k) \<in> (requires H baseDir)\<^sup>*"
      by auto
    show "k \<in> (requires H baseDir)\<^sup>* `` set (n # ns)"
    proof (cases "m \<in> set ns")
      case True
      with mk show ?thesis by auto
    next
      case False
      with m have "(n, m) \<in> requires H baseDir" by (simp add: requires_def)
      from this mk have "(n, k) \<in> (requires H baseDir)\<^sup>*" by (rule converse_rtrancl_into_rtrancl)
      then show ?thesis by auto
    qed
  qed
  with fresh.IH show ?case by auto
qed

lemma join_lines_snoc: "ls \<noteq> [] \<Longrightarrow> join_lines (ls @ [l]) = join_lines ls @ [CHR 0x0A] @ l"
  by (induction ls rule: join_lines.induct) auto

lemmas build_eval = collect_def scan_eval resolveModulePath_def toLowerCase_def posix_eval
  visited_add_def circular_import_def cannot_find_def could_not_read_def





lemma collect_invariants:
  assumes "collect H baseDir entryFile = Inr (transformedEntry, st)"
  shows "discovered H baseDir [] st"
    and "discover H baseDir (entry_submodules H baseDir entryFile) [] (table_keys st)"
    and "finished_order H baseDir (rev (visited st))"
    and "path_resolve H baseDir ` set (entry_submodules H baseDir entryFile) \<subseteq> set (visited st)"
    and "distinct (map fst (modules st))"
    and "rewritten H baseDir (modules st)"
proof -
  from assms obtain entryContent where
    run: "loadModules H baseDir (entry_submodules H baseDir entryFile) [] (path_join H baseDir entryFile)
           \<lparr>visited = [], modules = []\<rparr> = Inr st"
    by (rule collect_Inr)
  have init: "discovered H baseDir [] \<lparr>visited = [], modules = []\<rparr>"
    by (simp add: discovered_def table_keys_def)
  from load_discovers [THEN conjunct2, rule_format, OF run init]
  have d: "discovered H baseDir [] st"
    and sim: "\<And>ns r. discover H baseDir ns (table_keys st) r \<Longrightarrow>
       discover H baseDir (entry_submodules H baseDir entryFile @ ns) (table_keys \<lparr>visited = [], modules = []\<rparr>) r"
    by blast+
  from d show "discovered H baseDir [] st" .
  from sim [OF discover.finished]
  show "discover H baseDir (entry_submodules H baseDir entryFile) [] (table_keys st)"
    by (simp add: table_keys_def)
  from load_finishes [THEN conjunct2, rule_format, OF run]
  show "finished_order H baseDir (rev (visited st))"
    and "path_resolve H baseDir ` set (entry_submodules H baseDir entryFile) \<subseteq> set (visited st)"
    by simp_all
  from load_table [THEN conjunct2, rule_format, OF run]
  show "distinct (map fst (modules st))" and "rewritten H baseDir (modules st)"
    by (simp_all add: rewritten_def)
qed










text \<open>
  C9. When \<^verbatim>\<open>bundleLua\<close> returns an artifact, the entry file was read and transformed;
  every name of the module table is a submodule of the entry or can be reached from one
  through the submodules of files, and its entry holds the rewritten text of its own
  file; the artifact ends with the line \<^verbatim>\<open>-- Entry point\<close>, a line break, and the
  rewritten text of the entry.
\<close>

theorem entry_outside_table:
  assumes "bundleLua H now baseDir entryFile = Inr out"
  shows "\<exists>entryContent transformedEntry st.
           readFileSync H (path_join H baseDir entryFile) = Some entryContent \<and>
           parseAndTransform H baseDir entryContent (path_join H baseDir entryFile)
             = Inr (transformedEntry, entry_submodules H baseDir entryFile) \<and>
           collect H baseDir entryFile = Inr (transformedEntry, st) \<and>
           set (map fst (modules st))
             \<subseteq> (requires H baseDir)\<^sup>* `` set (entry_submodules H baseDir entryFile) \<and>
           rewritten H baseDir (modules st) \<and>
           out = join_lines (header_lines now @ module_lines (modules st) @ import_lines
                   @ game_require_lines @ [''-- Entry point'']) @ [CHR 0x0A] @ transformedEntry"
proof -
  from assms obtain transformedEntry st where
    c: "collect H baseDir entryFile = Inr (transformedEntry, st)"
    and out: "out = join_lines (output_lines now (modules st) transformedEntry)"
    by (auto simp: bundleLua_def split: sum.splits)
  from c obtain entryContent where
    read: "readFileSync H (path_join H baseDir entryFile) = Some entryContent"
    and parse: "parseAndTransform H baseDir entryContent (path_join H baseDir entryFile)
           = Inr (transformedEntry, entry_submodules H baseDir entryFile)"
    by (rule collect_Inr)
  note inv = collect_invariants [OF c]
  from discover_reachable [OF inv(2)]
  have keys: "set (map fst (modules st))
      \<subseteq> (requires H baseDir)\<^sup>* `` set (entry_submodules H baseDir entryFile)"
    by (simp add: table_keys_def)
  have "header_lines now @ module_lines (modules st) @ import_lines
           @ game_require_lines @ [''-- Entry point''] \<noteq> []"
    by simp
  from join_lines_snoc [OF this, of transformedEntry]
  have "out = join_lines (header_lines now @ module_lines (modules st) @ import_lines
                   @ game_require_lines @ [''-- Entry point'']) @ [CHR 0x0A] @ transformedEntry"
    unfolding out output_lines_def by simp
  with read parse c keys inv(6) show ?thesis by blast
qed

lemma probe_collect:
  \<open>collect (posix_host probe_tree) ''/p'' ''main.lua''
     = Inr (''local x = import("x.lua") local y = import("y.luau")'',
            \<lparr>visited = [''/p/x.lua'', ''/p/y.luau''],
             modules = [(''x.lua'', ''return 1''), (''y.luau'', ''return 3'')]\<rparr>)\<close>
  by (simp add: build_eval probe_tree_def)

text \<open>
  The artifact for the entry that requires \<^verbatim>\<open>./x\<close> and \<^verbatim>\<open>./y\<close>.
\<close>

theorem entry_outside_table_witness:
  \<open>\<exists>out. bundleLua (posix_host probe_tree) (''1/1/2025'', ''12:00:00'') ''/p'' ''main.lua'' = Inr out \<and>
     out = join_lines (header_lines (''1/1/2025'', ''12:00:00'')
             @ module_lines [(''x.lua'', ''return 1''), (''y.luau'', ''return 3'')]
             @ import_lines @ game_require_lines @ [''-- Entry point''])
           @ [CHR 0x0A] @ ''local x = import("x.lua") local y = import("y.luau")''\<close>
proof -
  have "\<exists>out. bundleLua (posix_host probe_tree) (''1/1/2025'', ''12:00:00'') ''/p'' ''main.lua'' = Inr out"
    by (simp add: bundleLua_def probe_collect)
  then obtain out where
    b: "bundleLua (posix_host probe_tree) (''1/1/2025'', ''12:00:00'') ''/p'' ''main.lua'' = Inr out" ..
  from entry_outside_table [OF b] show ?thesis
    using b by (auto simp: probe_collect)
qed

end
